theory Spec2Isabelle
  imports Main "HOL-Library.Word" "HOL-Library.Finite_Map"
begin

section \<open>The job table of gofilerd\<close>

text \<open>
  The daemon keeps one process-wide table \<^verbatim>\<open>jobs\<close> of type \<^verbatim>\<open>jobMap\<close>
  (a Go map from token to job, guarded by a read/write lock). Each method holds the
  lock for its whole body, so a method is one atomic step of the table; the model passes
  the table in and returns the new one.

  Conventions of the embedding:
  \<^item> \<^verbatim>\<open>time.Time\<close> is an \<open>int\<close>: nanoseconds on the process clock. \<^verbatim>\<open>t.Add(d)\<close>
    is \<open>t + d\<close> and \<^verbatim>\<open>t.After(u)\<close> is \<open>t > u\<close>. The zero \<^verbatim>\<open>time.Time\<close> is 0.
    Every call of \<^verbatim>\<open>time.Now()\<close> is a parameter of the function that makes it.
  \<^item> The flags \<^verbatim>\<open>timeout\<close> and \<^verbatim>\<open>maxJobs\<close> are Go \<^verbatim>\<open>uint\<close>, on a 64-bit platform
    a \<open>64 word\<close>. The conversions \<^verbatim>\<open>int(maxJobs)\<close> and \<^verbatim>\<open>time.Duration(timeout)\<close>
    reinterpret the bits (\<open>sint\<close>), and \<^verbatim>\<open>time.Duration\<close> arithmetic wraps in 64 bits.
  \<^item> A Go map is a finite map; the uninitialised (nil) map is \<open>None\<close>. Reading a nil map
    finds nothing, \<^verbatim>\<open>delete\<close> on it does nothing, \<^verbatim>\<open>range\<close> over it runs no iteration.
  \<^item> A channel made by \<^verbatim>\<open>make(chan result)\<close> is named by a number; the nil channel
    (the zero value of a channel field) is \<open>None\<close>.
\<close>

type_synonym time = int
type_synonym chan = nat

datatype gofiler_Profile = nil_Profile | Profile_data nat
  \<comment> \<open>\<^verbatim>\<open>gofiler.Profile\<close> is a map type of the external profiler library: its content is
      opaque here, \<open>nil_Profile\<close> is its zero value\<close>

type_synonym gofiler_Token = string
  \<comment> \<open>\<^verbatim>\<open>gofiler.Token\<close>: an input token of the document, opaque here\<close>

record result =
  result_profile :: gofiler_Profile
  result_err :: "string option"   \<comment> \<open>a Go \<^verbatim>\<open>error\<close>: \<open>None\<close> is nil\<close>

record job =
  pending :: "chan option"
  language :: string
  start :: time

definition zero_job :: job where
  "zero_job = \<lparr>pending = None, language = [], start = 0\<rparr>"

record jobMap =
  jm_m :: "(string, job) fmap option"   \<comment> \<open>the field \<^verbatim>\<open>m map[string]job\<close>\<close>

record config =
  timeout :: "64 word"
  maxJobs :: "64 word"

definition entries :: "jobMap \<Rightarrow> (string, job) fmap" where
  \<comment> \<open>what a reader of the map sees: a nil map reads as the empty map\<close>
  "entries jm = (case jm_m jm of None \<Rightarrow> fmempty | Some t \<Rightarrow> t)"

definition len :: "jobMap \<Rightarrow> int" where
  \<comment> \<open>\<^verbatim>\<open>len(m.m)\<close>\<close>
  "len jm = int (fcard (fmdom (entries jm)))"

definition get :: "jobMap \<Rightarrow> string \<Rightarrow> job \<times> bool" where
  "get jm token =
     (case jm_m jm of
        None \<Rightarrow> (zero_job, False)
      | Some t \<Rightarrow>
          (case fmlookup t token of
             None \<Rightarrow> (zero_job, False)
           | Some pp \<Rightarrow> (pp, True)))"

definition del :: "string \<Rightarrow> jobMap \<Rightarrow> jobMap" where
  "del token jm = jm\<lparr>jm_m := map_option (fmdrop token) (jm_m jm)\<rparr>"

datatype put_result = putJobOK | putJobNotUnique | putJobFull

definition capacity :: "config \<Rightarrow> int" where
  \<comment> \<open>\<^verbatim>\<open>int(maxJobs)\<close>\<close>
  "capacity cfg = sint (maxJobs cfg)"

definition put :: "config \<Rightarrow> time \<Rightarrow> string \<Rightarrow> string \<Rightarrow> chan \<Rightarrow> jobMap \<Rightarrow> put_result \<times> jobMap" where
  "put cfg now lang token pchan jm =
     (let t = (case jm_m jm of None \<Rightarrow> fmempty | Some t \<Rightarrow> t);
          jm1 = jm\<lparr>jm_m := Some t\<rparr>
      in if int (fcard (fmdom t)) \<ge> capacity cfg then (putJobFull, jm1)
         else if fmlookup t token \<noteq> None then (putJobNotUnique, jm1)
         else (putJobOK,
               jm1\<lparr>jm_m := Some (fmupd token
                  \<lparr>pending = Some pchan, language = lang, start = now\<rparr> t)\<rparr>))"

definition delta :: "config \<Rightarrow> int" where
  \<comment> \<open>\<^verbatim>\<open>time.Duration(timeout) * time.Minute\<close>, an int64 count of nanoseconds\<close>
  "delta cfg = sint (timeout cfg * 60000000000)"

definition forDeletion :: "config \<Rightarrow> time \<Rightarrow> (string, job) fmap \<Rightarrow> string fset" where
  \<comment> \<open>the tokens collected by the first loop of \<^verbatim>\<open>clean\<close>; a Go map is ranged over in
      no fixed order, so the slice is taken as the set of its elements\<close>
  "forDeletion cfg now t =
     ffilter (\<lambda>token. case fmlookup t token of
                         None \<Rightarrow> False
                       | Some job \<Rightarrow> now > start job + delta cfg)
             (fmdom t)"

definition clean :: "config \<Rightarrow> time \<Rightarrow> jobMap \<Rightarrow> jobMap" where
  "clean cfg now jm =
     (case jm_m jm of
        None \<Rightarrow> jm
      | Some t \<Rightarrow> jm\<lparr>jm_m := Some (fmdrop_fset (forDeletion cfg now t) t)\<rparr>)"

text \<open>
  Sequences of table operations, for statements about every history of the table. The zero
  value of \<^verbatim>\<open>jobMap\<close> (the declaration \<^verbatim>\<open>jobs jobMap\<close>) has a nil map.
\<close>

datatype table_op = Put time string string chan | Del string | Clean time

fun apply_op :: "config \<Rightarrow> jobMap \<Rightarrow> table_op \<Rightarrow> jobMap" where
  "apply_op cfg jm (Put now lang token pchan) = snd (put cfg now lang token pchan jm)"
| "apply_op cfg jm (Del token) = del token jm"
| "apply_op cfg jm (Clean now) = clean cfg now jm"

definition zero_jobMap :: jobMap where
  "zero_jobMap = \<lparr>jm_m = None\<rparr>"

definition run_ops :: "config \<Rightarrow> table_op list \<Rightarrow> jobMap" where
  "run_ops cfg ops = foldl (apply_op cfg) zero_jobMap ops"

section \<open>The job runner\<close>

text \<open>
  \<^verbatim>\<open>runProfiler\<close> runs as a goroutine of its own. Its body is: register the deferred
  \<^verbatim>\<open>close(pchan)\<close>, call \<^verbatim>\<open>gofiler.Run\<close> under a deadline, send the pair of the
  profile and the error on \<^verbatim>\<open>pchan\<close>, return (which runs the deferred close). The channel
  is made without a buffer, so the send waits until a receiver takes the value.

  The goroutine is a small state machine over its program points. What it cannot decide
  itself comes from its environment at each scheduling step: whether \<^verbatim>\<open>gofiler.Run\<close>
  has returned, and whether some goroutine is waiting to receive from the channel. The
  value \<open>r\<close> is what \<^verbatim>\<open>gofiler.Run\<close> returns in this run (a profile, or an error such as
  the exceeded deadline).
\<close>

datatype runner_pc =
    AtRun              \<comment> \<open>inside \<^verbatim>\<open>gofiler.Run\<close>\<close>
  | AtSend result      \<comment> \<open>at \<^verbatim>\<open>pchan <- result{profile: p, err: err}\<close>\<close>
  | AtClose            \<comment> \<open>the send is done, the function returns: the deferred close is next\<close>
  | Finished           \<comment> \<open>the channel is closed, the goroutine is gone\<close>

datatype chan_ev = Send result | Close

datatype env = Env (run_finished: bool) (receiver: bool)

fun runProfiler_step :: "result \<Rightarrow> env \<Rightarrow> runner_pc \<Rightarrow> runner_pc \<times> chan_ev list" where
  "runProfiler_step r e AtRun = (if run_finished e then (AtSend r, []) else (AtRun, []))"
| "runProfiler_step r e (AtSend v) =
     (if receiver e then (AtClose, [Send v]) else (AtSend v, []))"
| "runProfiler_step r e AtClose = (Finished, [Close])"
| "runProfiler_step r e Finished = (Finished, [])"

text \<open>
  The state of the goroutine and the events on its channel after \<open>n\<close> scheduling steps
  under the schedule \<open>sched\<close>.
\<close>

fun runProfiler_upto :: "result \<Rightarrow> (nat \<Rightarrow> env) \<Rightarrow> nat \<Rightarrow> runner_pc \<times> chan_ev list" where
  "runProfiler_upto r sched 0 = (AtRun, [])"
| "runProfiler_upto r sched (Suc n) =
     (case runProfiler_upto r sched n of (pc, evs) \<Rightarrow>
        (case runProfiler_step r (sched n) pc of (pc', es) \<Rightarrow> (pc', evs @ es)))"

text \<open>
  The whole run: the events on the channel when \<^verbatim>\<open>runProfiler\<close> has returned, \<open>None\<close>
  when it never returns.
\<close>

partial_function (option) runProfiler_from ::
  "result \<Rightarrow> (nat \<Rightarrow> env) \<Rightarrow> nat \<Rightarrow> runner_pc \<Rightarrow> chan_ev list \<Rightarrow> chan_ev list option" where
  "runProfiler_from r sched i pc evs =
     (if pc = Finished then Some evs
      else (case runProfiler_step r (sched i) pc of
              (pc', es) \<Rightarrow> runProfiler_from r sched (Suc i) pc' (evs @ es)))"

definition runProfiler :: "result \<Rightarrow> (nat \<Rightarrow> env) \<Rightarrow> chan_ev list option" where
  "runProfiler r sched = runProfiler_from r sched 0 AtRun []"

text \<open>How far the goroutine has come: it only ever moves forward.\<close>

fun progress :: "runner_pc \<Rightarrow> nat" where
  "progress AtRun = 0"
| "progress (AtSend v) = 1"
| "progress AtClose = 2"
| "progress Finished = 3"

definition never_received :: "nat \<Rightarrow> env" where
  \<comment> \<open>the profiler returns at once, and no goroutine ever receives from the channel\<close>
  "never_received i = Env True False"

definition received_at :: "nat \<Rightarrow> nat \<Rightarrow> env" where
  \<comment> \<open>the profiler returns at once, a receiver is waiting from step \<open>k\<close> on\<close>
  "received_at k i = Env True (k \<le> i)"

section \<open>The request handlers\<close>

text \<open>
  The state the handlers work on: the table \<^verbatim>\<open>jobs\<close>, the number of channels made so
  far (the next \<^verbatim>\<open>make(chan result)\<close> returns that number), and the runner goroutines,
  each under the channel it writes to. A channel has one writer, its runner, so what a
  receiver finds on the channel is read off the runner's program point.
\<close>

record runner =
  runner_config :: string
  runner_tokens :: "gofiler_Token list"
  pc :: runner_pc

record world =
  jobs :: jobMap
  chans :: nat
  runners :: "(chan, runner) fmap"

record api_Token =
  ID :: string

record api_Profile =
  Profile :: gofiler_Profile
  Token :: api_Token
  Language :: string
  Status :: string
  Done :: bool

record api_Request =
  req_Language :: string              \<comment> \<open>the field \<^verbatim>\<open>Language\<close> of \<^verbatim>\<open>api.Request\<close>\<close>
  req_Tokens :: "gofiler_Token list"  \<comment> \<open>the field \<^verbatim>\<open>Tokens\<close> of \<^verbatim>\<open>api.Request\<close>\<close>

datatype response =
    RStatus int          \<comment> \<open>a handler returning an \<^verbatim>\<open>int\<close>: the HTTP status\<close>
  | RError string        \<comment> \<open>a handler returning an \<^verbatim>\<open>error\<close>\<close>
  | RProfile api_Profile
  | RToken api_Token

definition StatusNotFound :: int where
  "StatusNotFound = 404"

definition StatusServiceUnavailable :: int where
  "StatusServiceUnavailable = 503"

definition zero_result :: result where
  "zero_result = \<lparr>result_profile = nil_Profile, result_err = None\<rparr>"

text \<open>
  Receiving from a channel: \<open>None\<close> when the receive cannot proceed in this state. A nil
  channel and a channel without a sender never deliver; a runner at its send hands its
  value over and goes on to its deferred close; a closed channel delivers the zero value.
\<close>

definition recv :: "world \<Rightarrow> chan option \<Rightarrow> (result \<times> world) option" where
  "recv w ch =
     (case ch of
        None \<Rightarrow> None
      | Some c \<Rightarrow>
          (case fmlookup (runners w) c of
             None \<Rightarrow> None
           | Some rn \<Rightarrow>
               (case pc rn of
                  AtRun \<Rightarrow> None
                | AtSend v \<Rightarrow> Some (v, w\<lparr>runners := fmupd c (rn\<lparr>pc := AtClose\<rparr>) (runners w)\<rparr>)
                | AtClose \<Rightarrow> None
                | Finished \<Rightarrow> Some (zero_result, w))))"

text \<open>
  A \<^verbatim>\<open>select\<close> statement with one receive case. With a \<^verbatim>\<open>default\<close> case it takes the
  default when the receive cannot proceed; without one it waits. The cases of
  \<open>selected\<close> are: the receive case ran, the default case ran, the statement is waiting.
\<close>

datatype 'a selected = Received 'a | Default_case | Blocked

definition select_recv :: "bool \<Rightarrow> 'a option \<Rightarrow> 'a selected" where
  "select_recv has_default ready =
     (case ready of
        Some v \<Rightarrow> Received v
      | None \<Rightarrow> if has_default then Default_case else Blocked)"

definition verbs :: "string list" where
  "verbs = [''eating'', ''smelling'', ''seeing'', ''kicking'', ''liking'', ''tasting'',
            ''licking'']"

definition adjectives :: "string list" where
  "adjectives = [''sweet'', ''old'', ''dead'', ''tiny'', ''small'', ''bitter'', ''cold'']"

definition nouns :: "string list" where
  "nouns = [''pancakes'', ''farts'', ''people'', ''kittens'', ''feet'', ''ashes'', ''steel'']"

definition Intn :: "nat \<Rightarrow> nat \<Rightarrow> nat" where
  \<comment> \<open>\<^verbatim>\<open>rand.Intn(n)\<close> for \<open>n > 0\<close>: some number below \<open>n\<close>, here read off the raw draw \<open>x\<close>\<close>
  "Intn n x = x mod n"

definition status_string :: "(nat \<Rightarrow> nat) \<Rightarrow> string" where
  \<comment> \<open>\<^verbatim>\<open>fmt.Sprintf("%s %s %s", verbs[...], adjectives[...], nouns[...])\<close>; \<open>rand i\<close> is the
      \<open>i\<close>-th raw draw of the random source during the call\<close>
  "status_string rand =
     verbs ! Intn (length verbs) (rand 0) @ '' '' @
     adjectives ! Intn (length adjectives) (rand 1) @ '' '' @
     nouns ! Intn (length nouns) (rand 2)"

text \<open>
  \<^verbatim>\<open>getProfile\<close> runs in the goroutine of its request, and other goroutines (other polls,
  the runner) run between its steps: \<^verbatim>\<open>jobs.get\<close> releases its lock when it returns, the
  receive is a step of its own, and the deferred \<^verbatim>\<open>jobs.del\<close> takes the lock again when
  the function returns. So the poll is a state machine over its program points, and each
  step is atomic.

  The \<^verbatim>\<open>select\<close> of the source has the single case \<^verbatim>\<open>case p := <-job.pending\<close> and no
  \<^verbatim>\<open>default\<close>. The statements after the \<^verbatim>\<open>select\<close> are the branch \<open>Default_case\<close>: they
  run when the \<^verbatim>\<open>select\<close> ends without a \<^verbatim>\<open>return\<close>. The \<^verbatim>\<open>defer\<close> is registered in the
  receive case only, and runs at both of its returns.
\<close>

datatype poll_pc =
    AtGet                \<comment> \<open>before \<^verbatim>\<open>jobs.get(token.ID)\<close>\<close>
  | AtSelect job         \<comment> \<open>the job was found; at the \<^verbatim>\<open>select\<close>\<close>
  | AtReturn response    \<comment> \<open>a value was received; returning, the deferred \<^verbatim>\<open>jobs.del\<close> is next\<close>
  | Returned response    \<comment> \<open>the handler has returned this response\<close>

fun poll_step :: "(nat \<Rightarrow> nat) \<Rightarrow> api_Token \<Rightarrow> poll_pc \<times> world \<Rightarrow> poll_pc \<times> world" where
  "poll_step rand token (AtGet, w) =
     (case get (jobs w) (ID token) of
        (job, ok) \<Rightarrow>
          if \<not> ok then (Returned (RStatus StatusNotFound), w)
          else (AtSelect job, w))"
| "poll_step rand token (AtSelect job, w) =
     (case select_recv False (recv w (pending job)) of
        Received (p, w1) \<Rightarrow>
          (case result_err p of
             Some e \<Rightarrow> (AtReturn (RError e), w1)
           | None \<Rightarrow>
               (AtReturn (RProfile \<lparr>Profile = result_profile p, Token = token,
                            Language = language job, Status = ''done'', Done = True\<rparr>), w1))
      | Default_case \<Rightarrow>
          (Returned (RProfile \<lparr>Profile = nil_Profile, Token = token, Language = [],
                       Status = status_string rand, Done = False\<rparr>), w)
      | Blocked \<Rightarrow> (AtSelect job, w))"
| "poll_step rand token (AtReturn resp, w) =
     (Returned resp, w\<lparr>jobs := del (ID token) (jobs w)\<rparr>)"
| "poll_step rand token (Returned resp, w) = (Returned resp, w)"

text \<open>
  The call of \<^verbatim>\<open>getProfile\<close> with nothing else running in between: a poll returns within
  three steps (get, receive, return) unless it waits at its \<^verbatim>\<open>select\<close>, where it stays as
  long as the state does not change. \<open>None\<close> is the call that does not return in this state.
\<close>

definition getProfile :: "world \<Rightarrow> (nat \<Rightarrow> nat) \<Rightarrow> api_Token \<Rightarrow> (response \<times> world) option" where
  "getProfile w rand token =
     (case poll_step rand token (poll_step rand token (poll_step rand token (AtGet, w))) of
        (Returned resp, w') \<Rightarrow> Some (resp, w')
      | _ \<Rightarrow> None)"





definition letters :: string where
  "letters = ''abcdefghijklmnopqrstuvwxyzABCDEFGHIJKLMNOPQRSTUVWXYZ0123456789''"

definition generateRandomID :: "(nat \<Rightarrow> nat) \<Rightarrow> string" where
  "generateRandomID rand = map (\<lambda>i. letters ! Intn (length letters) (rand i)) [0..<16]"

definition nth_ID :: "(nat \<Rightarrow> nat) \<Rightarrow> nat \<Rightarrow> string" where
  \<comment> \<open>the token that the \<open>k\<close>-th call of \<^verbatim>\<open>generateRandomID\<close> within one submission returns:
      every call takes 16 draws\<close>
  "nth_ID rand k = generateRandomID (\<lambda>i. rand (16 * k + i))"

text \<open>
  \<^verbatim>\<open>profile\<close>: the loop \<^verbatim>\<open>for { ... }\<close> has no bound, so it is a partial function and
  \<open>None\<close> is the call that never returns. \<open>clock 0\<close> is the time that \<^verbatim>\<open>clean\<close> reads,
  \<open>clock (Suc k)\<close> the time that \<^verbatim>\<open>put\<close> reads in iteration \<open>k\<close>. The \<^verbatim>\<open>switch\<close> has no
  case for \<^verbatim>\<open>putJobNotUnique\<close>: the loop goes round again. \<^verbatim>\<open>go runProfiler(...)\<close> adds
  a runner at the start of its body.
\<close>

partial_function (option) profile_loop ::
  "config \<Rightarrow> (nat \<Rightarrow> time) \<Rightarrow> (nat \<Rightarrow> nat) \<Rightarrow> string \<Rightarrow> api_Request \<Rightarrow> chan \<Rightarrow> nat \<Rightarrow> world
     \<Rightarrow> (response \<times> world) option" where
  "profile_loop cfg clock rand path request pchan k w =
     (let token = \<lparr>ID = nth_ID rand k\<rparr> in
      case put cfg (clock (Suc k)) (req_Language request) (ID token) pchan (jobs w) of
        (res, jm) \<Rightarrow>
          (let w1 = w\<lparr>jobs := jm\<rparr> in
           case res of
             putJobOK \<Rightarrow>
               Some (RToken token,
                     w1\<lparr>runners := fmupd pchan
                        \<lparr>runner_config = path, runner_tokens = req_Tokens request, pc = AtRun\<rparr>
                        (runners w1)\<rparr>)
           | putJobFull \<Rightarrow> Some (RStatus StatusServiceUnavailable, w1)
           | putJobNotUnique \<Rightarrow> profile_loop cfg clock rand path request pchan (Suc k) w1))"

definition profile ::
  "config \<Rightarrow> (nat \<Rightarrow> time) \<Rightarrow> (nat \<Rightarrow> nat) \<Rightarrow> world \<Rightarrow> string \<Rightarrow> api_Request
     \<Rightarrow> (response \<times> world) option" where
  "profile cfg clock rand w path request =
     (let pchan = chans w;
          w1 = w\<lparr>chans := Suc (chans w)\<rparr>;
          w2 = w1\<lparr>jobs := clean cfg (clock 0) (jobs w1)\<rparr>
      in profile_loop cfg clock rand path request pchan 0 w2)"

section \<open>Concrete inputs\<close>

text \<open>Small configurations, tables and states at which the theorems below are applied.\<close>

definition cfg1 :: config where
  "cfg1 = \<lparr>timeout = 45, maxJobs = 1\<rparr>"

definition cfg2 :: config where
  "cfg2 = \<lparr>timeout = 45, maxJobs = 2\<rparr>"

definition jm_T1 :: jobMap where
  \<comment> \<open>the table with the one job \<open>T1\<close>, started at time 0, on channel 0\<close>
  "jm_T1 = \<lparr>jm_m = Some (fmupd ''T1''
              \<lparr>pending = Some 0, language = ''eng'', start = 0\<rparr> fmempty)\<rparr>"

definition r_ok :: result where
  \<comment> \<open>the profiler succeeded\<close>
  "r_ok = \<lparr>result_profile = Profile_data 1, result_err = None\<rparr>"


definition w_running :: world where
  \<comment> \<open>the job \<open>T1\<close> is in the table, its runner is still inside the profiler\<close>
  "w_running = \<lparr>jobs = jm_T1, chans = 1,
      runners = fmupd 0
        \<lparr>runner_config = ''eng.ini'', runner_tokens = [''foo'', ''bar''], pc = AtRun\<rparr>
        fmempty\<rparr>"



definition w_T1 :: world where
  \<comment> \<open>the job \<open>T1\<close> is in the table; one channel has been made\<close>
  "w_T1 = \<lparr>jobs = jm_T1, chans = 1, runners = fmempty\<rparr>"

definition req_eng :: api_Request where
  "req_eng = \<lparr>req_Language = ''eng'', req_Tokens = [''foo'', ''bar'']\<rparr>"

definition jm_a :: jobMap where
  \<comment> \<open>the table with one job under the token of sixteen letters \<open>a\<close>\<close>
  "jm_a = \<lparr>jm_m = Some (fmupd ''aaaaaaaaaaaaaaaa''
              \<lparr>pending = Some 0, language = ''eng'', start = 0\<rparr> fmempty)\<rparr>"

definition w_a :: world where
  "w_a = \<lparr>jobs = jm_a, chans = 1, runners = fmempty\<rparr>"

definition rand_a :: "nat \<Rightarrow> nat" where
  \<comment> \<open>a random source that draws 0 for ever: every generated token is sixteen \<open>a\<close>\<close>
  "rand_a i = 0"

definition rand_aab :: "nat \<Rightarrow> nat" where
  \<comment> \<open>a random source whose first two tokens are sixteen \<open>a\<close>, the later ones sixteen \<open>b\<close>\<close>
  "rand_aab i = (if i < 32 then 0 else 1)"

definition clock0 :: "nat \<Rightarrow> time" where
  \<comment> \<open>the \<open>i\<close>-th reading of the clock is \<open>i\<close>\<close>
  "clock0 i = int i"

section \<open>Facts about the table operations\<close>

lemma sint_le_uint64: "sint (w :: 64 word) \<le> uint w"
proof -
  have "- (2 ^ 63) \<le> (0::int)" by simp
  also have "0 \<le> uint w" by simp
  finally show ?thesis
    by (simp add: sint_uint signed_take_bit_int_less_eq_self_iff)
qed

lemma capacity_le_uint: "capacity cfg \<le> uint (maxJobs cfg)"
  using sint_le_uint64 [of "maxJobs cfg"] by (simp add: capacity_def)

lemma entries_put:
  "entries (snd (put cfg now lang token pchan jm)) =
     (if len jm \<ge> capacity cfg \<or> fmlookup (entries jm) token \<noteq> None then entries jm
      else fmupd token \<lparr>pending = Some pchan, language = lang, start = now\<rparr> (entries jm))"
  by (simp add: put_def entries_def len_def Let_def split: option.splits)

lemma fst_put:
  "fst (put cfg now lang token pchan jm) =
     (if len jm \<ge> capacity cfg then putJobFull
      else if fmlookup (entries jm) token \<noteq> None then putJobNotUnique
      else putJobOK)"
  by (simp add: put_def entries_def len_def Let_def split: option.splits)

lemma entries_del: "entries (del token jm) = fmdrop token (entries jm)"
  by (simp add: del_def entries_def split: option.splits)

lemma entries_clean:
  "entries (clean cfg now jm) = fmdrop_fset (forDeletion cfg now (entries jm)) (entries jm)"
  by (simp add: clean_def entries_def forDeletion_def split: option.splits)

lemma forDeletion_iff:
  "token |\<in>| forDeletion cfg now t \<longleftrightarrow>
     (\<exists>job. fmlookup t token = Some job \<and> now > start job + delta cfg)"
  by (auto simp: forDeletion_def fmlookup_dom_iff split: option.splits)

lemma len_del_le: "len (del token jm) \<le> len jm"
  by (simp add: len_def entries_del fcard_mono fminus_fsubset)

lemma len_clean_le: "len (clean cfg now jm) \<le> len jm"
  by (simp add: len_def entries_clean fcard_mono fminus_fsubset)

lemma len_put_le:
  assumes "len jm \<le> uint (maxJobs cfg)"
  shows "len (snd (put cfg now lang token pchan jm)) \<le> uint (maxJobs cfg)"
proof (cases "len jm \<ge> capacity cfg \<or> fmlookup (entries jm) token \<noteq> None")
  case True
  then show ?thesis using assms by (simp add: len_def entries_put)
next
  case False
  then have lt: "len jm < capacity cfg" and fresh: "token |\<notin>| fmdom (entries jm)"
    by (auto simp: fmlookup_dom_iff)
  from False have "len (snd (put cfg now lang token pchan jm)) = len jm + 1"
    using fresh by (simp add: len_def entries_put fcard_finsert_disjoint)
  with lt capacity_le_uint [of cfg] show ?thesis by linarith
qed

lemma len_apply_op:
  "len jm \<le> uint (maxJobs cfg) \<Longrightarrow> len (apply_op cfg jm op) \<le> uint (maxJobs cfg)"
proof (cases op)
  case (Put now lang token pchan)
  assume "len jm \<le> uint (maxJobs cfg)"
  then show ?thesis using Put by (simp add: len_put_le)
next
  case (Del token)
  assume "len jm \<le> uint (maxJobs cfg)"
  then show ?thesis using Del len_del_le [of token jm] by simp
next
  case (Clean now)
  assume "len jm \<le> uint (maxJobs cfg)"
  then show ?thesis using Clean len_clean_le [of cfg now jm] by simp
qed

lemma len_foldl_apply_op:
  "len jm \<le> uint (maxJobs cfg) \<Longrightarrow>
   len (foldl (apply_op cfg) jm ops) \<le> uint (maxJobs cfg)"
  by (induction ops arbitrary: jm) (simp_all add: len_apply_op)

lemma len_zero_jobMap: "len zero_jobMap = 0"
  by (simp add: len_def entries_def zero_jobMap_def)

lemma len_run_ops: "len (run_ops cfg ops) \<le> uint (maxJobs cfg)"
  unfolding run_ops_def by (rule len_foldl_apply_op) (simp add: len_zero_jobMap)

section \<open>Facts about the handlers\<close>

lemma recv_is_runner_step:
  assumes "fmlookup (runners w) c = Some rn" and "pc rn = AtSend v"
  shows "recv w (Some c) =
           Some (v, w\<lparr>runners := fmupd c
                   (rn\<lparr>pc := fst (runProfiler_step r (Env f True) (pc rn))\<rparr>) (runners w)\<rparr>)"
  using assms by (simp add: recv_def)

lemma get_entries:
  "get jm token = (case fmlookup (entries jm) token of None \<Rightarrow> (zero_job, False) | Some pp \<Rightarrow> (pp, True))"
  by (simp add: get_def entries_def split: option.splits)

lemma poll_step_unknown:
  "fmlookup (entries (jobs w)) (ID token) = None \<Longrightarrow>
   poll_step rand token (AtGet, w) = (Returned (RStatus StatusNotFound), w)"
  by (simp add: get_entries)

lemma poll_step_found:
  "fmlookup (entries (jobs w)) (ID token) = Some job \<Longrightarrow>
   poll_step rand token (AtGet, w) = (AtSelect job, w)"
  by (simp add: get_entries)

lemma poll_step_blocked:
  "recv w (pending job) = None \<Longrightarrow>
   poll_step rand token (AtSelect job, w) = (AtSelect job, w)"
  by (simp add: select_recv_def)

lemma poll_steps_blocked:
  "recv w (pending job) = None \<Longrightarrow>
   (poll_step rand token ^^ n) (AtSelect job, w) = (AtSelect job, w)"
  by (induction n) (simp_all add: poll_step_blocked del: poll_step.simps)



lemma getProfile_unknown:
  "fmlookup (entries (jobs w)) (ID token) = None \<Longrightarrow>
   getProfile w rand token = Some (RStatus StatusNotFound, w)"
  by (simp add: getProfile_def poll_step_unknown del: poll_step.simps(1,2))

lemma getProfile_not_ready:
  assumes "fmlookup (entries (jobs w)) (ID token) = Some job"
      and "recv w (pending job) = None"
  shows "getProfile w rand token = None"
  using assms
  by (simp add: getProfile_def poll_step_found poll_step_blocked del: poll_step.simps(1,2))

lemma poll_step_done:
  assumes "poll_step rand token (at, w) = (at', w')"
      and "at' = AtReturn (RProfile p) \<or> at' = Returned (RProfile p)"
      and "at = AtGet \<or> at = AtSelect job"
  shows "Done p"
  using assms
  by (auto simp: get_entries select_recv_def split: option.splits if_splits prod.splits)


lemma getProfile_never_unfinished:
  assumes "getProfile w rand token = Some (RProfile p, w')"
  shows "Done p"
proof (cases "fmlookup (entries (jobs w)) (ID token)")
  case None
  with assms show ?thesis by (simp add: getProfile_unknown)
next
  case (Some job)
  show ?thesis
  proof (cases "recv w (pending job)")
    case None
    with Some assms show ?thesis by (simp add: getProfile_not_ready)
  next
    case (Some pw)
    obtain v w1 where pw: "pw = (v, w1)" by (cases pw)
    with Some \<open>fmlookup (entries (jobs w)) (ID token) = Some job\<close> assms show ?thesis
      by (auto simp: getProfile_def poll_step_found select_recv_def
               simp del: poll_step.simps(1) split: option.splits)
  qed
qed

lemma profile_loop_full:
  assumes "len (jobs w) \<ge> capacity cfg"
  shows "profile_loop cfg clock rand path request pchan k w =
           Some (RStatus StatusServiceUnavailable,
                 w\<lparr>jobs := snd (put cfg (clock (Suc k)) (req_Language request)
                                  (nth_ID rand k) pchan (jobs w))\<rparr>)"
proof -
  have "fst (put cfg (clock (Suc k)) (req_Language request) (nth_ID rand k) pchan (jobs w))
          = putJobFull"
    using assms by (simp add: fst_put)
  then show ?thesis
    by (subst profile_loop.simps) (simp add: case_prod_beta Let_def)
qed

lemma profile_loop_ok:
  assumes "len (jobs w) < capacity cfg"
      and "fmlookup (entries (jobs w)) (nth_ID rand k) = None"
  shows "profile_loop cfg clock rand path request pchan k w =
           Some (RToken \<lparr>ID = nth_ID rand k\<rparr>,
                 w\<lparr>jobs := snd (put cfg (clock (Suc k)) (req_Language request)
                                  (nth_ID rand k) pchan (jobs w)),
                   runners := fmupd pchan
                      \<lparr>runner_config = path, runner_tokens = req_Tokens request, pc = AtRun\<rparr>
                      (runners w)\<rparr>)"
proof -
  have "fst (put cfg (clock (Suc k)) (req_Language request) (nth_ID rand k) pchan (jobs w))
          = putJobOK"
    using assms by (simp add: fst_put)
  then show ?thesis
    by (subst profile_loop.simps) (simp add: case_prod_beta Let_def)
qed

lemma profile_loop_retry:
  assumes "len (jobs w) < capacity cfg"
      and "fmlookup (entries (jobs w)) (nth_ID rand k) \<noteq> None"
  shows "profile_loop cfg clock rand path request pchan k w =
           profile_loop cfg clock rand path request pchan (Suc k)
             (w\<lparr>jobs := snd (put cfg (clock (Suc k)) (req_Language request)
                              (nth_ID rand k) pchan (jobs w))\<rparr>)"
proof -
  have "fst (put cfg (clock (Suc k)) (req_Language request) (nth_ID rand k) pchan (jobs w))
          = putJobNotUnique"
    using assms by (simp add: fst_put)
  then show ?thesis
    by (subst profile_loop.simps) (simp add: case_prod_beta Let_def)
qed

lemma profile_loop_returns:
  assumes "fmlookup (entries (jobs w)) (nth_ID rand (k + n)) = None"
  shows "\<exists>resp w'. profile_loop cfg clock rand path request pchan k w = Some (resp, w') \<and>
           chans w' = chans w \<and>
           ((len (jobs w) \<ge> capacity cfg \<and> resp = RStatus StatusServiceUnavailable \<and>
             entries (jobs w') = entries (jobs w) \<and> runners w' = runners w) \<or>
            (len (jobs w) < capacity cfg \<and>
             (\<exists>j\<le>n. resp = RToken \<lparr>ID = nth_ID rand (k + j)\<rparr> \<and>
                fmlookup (entries (jobs w)) (nth_ID rand (k + j)) = None \<and>
                (\<forall>i<j. fmlookup (entries (jobs w)) (nth_ID rand (k + i)) \<noteq> None) \<and>
                entries (jobs w') =
                  fmupd (nth_ID rand (k + j))
                    \<lparr>pending = Some pchan, language = req_Language request,
                       start = clock (Suc (k + j))\<rparr> (entries (jobs w)) \<and>
                runners w' = fmupd pchan
                    \<lparr>runner_config = path, runner_tokens = req_Tokens request, pc = AtRun\<rparr>
                    (runners w))))"
  using assms
proof (induction n arbitrary: k w)
  case 0
  show ?case
  proof (cases "len (jobs w) \<ge> capacity cfg")
    case True
    then show ?thesis
      by (simp add: profile_loop_full entries_put)
  next
    case False
    with 0 show ?thesis
      by (simp add: profile_loop_ok entries_put)
  qed
next
  case (Suc n)
  show ?case
  proof (cases "len (jobs w) \<ge> capacity cfg")
    case True
    then show ?thesis
      by (simp add: profile_loop_full entries_put)
  next
    case False
    then have lt: "len (jobs w) < capacity cfg" by simp
    show ?thesis
    proof (cases "fmlookup (entries (jobs w)) (nth_ID rand k) = None")
      case True
      with lt have "profile_loop cfg clock rand path request pchan k w =
           Some (RToken \<lparr>ID = nth_ID rand k\<rparr>,
                 w\<lparr>jobs := snd (put cfg (clock (Suc k)) (req_Language request)
                                  (nth_ID rand k) pchan (jobs w)),
                   runners := fmupd pchan
                      \<lparr>runner_config = path, runner_tokens = req_Tokens request, pc = AtRun\<rparr>
                      (runners w)\<rparr>)"
        by (rule profile_loop_ok)
      with lt True show ?thesis
        by (simp add: entries_put) (rule exI [of _ 0], simp)
    next
      case dup: False
      let ?w1 = "w\<lparr>jobs := snd (put cfg (clock (Suc k)) (req_Language request)
                              (nth_ID rand k) pchan (jobs w))\<rparr>"
      have step: "profile_loop cfg clock rand path request pchan k w =
                  profile_loop cfg clock rand path request pchan (Suc k) ?w1"
        using lt dup by (rule profile_loop_retry)
      have same: "entries (jobs ?w1) = entries (jobs w)"
        using dup by (simp add: entries_put)
      have len1: "len (jobs ?w1) = len (jobs w)"
        using same by (simp add: len_def)
      have "fmlookup (entries (jobs ?w1)) (nth_ID rand (Suc k + n)) = None"
        using Suc.prems same by simp
      from Suc.IH [OF this]
      obtain resp w' j where
        run: "profile_loop cfg clock rand path request pchan (Suc k) ?w1 = Some (resp, w')"
        and ch: "chans w' = chans ?w1"
        and j: "j \<le> n" "resp = RToken \<lparr>ID = nth_ID rand (Suc k + j)\<rparr>"
               "fmlookup (entries (jobs ?w1)) (nth_ID rand (Suc k + j)) = None"
               "\<forall>i<j. fmlookup (entries (jobs ?w1)) (nth_ID rand (Suc k + i)) \<noteq> None"
               "entries (jobs w') =
                  fmupd (nth_ID rand (Suc k + j))
                    \<lparr>pending = Some pchan, language = req_Language request,
                       start = clock (Suc (Suc k + j))\<rparr> (entries (jobs ?w1))"
               "runners w' = fmupd pchan
                    \<lparr>runner_config = path, runner_tokens = req_Tokens request, pc = AtRun\<rparr>
                    (runners ?w1)"
        using lt len1 by auto
      have before: "fmlookup (entries (jobs w)) (nth_ID rand (k + i)) \<noteq> None" if "i < Suc j" for i
      proof (cases i)
        case 0
        with dup show ?thesis by simp
      next
        case (Suc i')
        with that have "i' < j" by simp
        with j(4) same Suc show ?thesis by simp
      qed
      have "Suc j \<le> Suc n" using j(1) by simp
      moreover have "resp = RToken \<lparr>ID = nth_ID rand (k + Suc j)\<rparr>" using j(2) by simp
      moreover have "fmlookup (entries (jobs w)) (nth_ID rand (k + Suc j)) = None"
        using j(3) same by simp
      moreover have "entries (jobs w') =
                  fmupd (nth_ID rand (k + Suc j))
                    \<lparr>pending = Some pchan, language = req_Language request,
                       start = clock (Suc (k + Suc j))\<rparr> (entries (jobs w))"
        using j(5) same by simp
      moreover have "runners w' = fmupd pchan
                    \<lparr>runner_config = path, runner_tokens = req_Tokens request, pc = AtRun\<rparr>
                    (runners w)"
        using j(6) by simp
      ultimately have "\<exists>j\<le>Suc n. resp = RToken \<lparr>ID = nth_ID rand (k + j)\<rparr> \<and>
                fmlookup (entries (jobs w)) (nth_ID rand (k + j)) = None \<and>
                (\<forall>i<j. fmlookup (entries (jobs w)) (nth_ID rand (k + i)) \<noteq> None) \<and>
                entries (jobs w') =
                  fmupd (nth_ID rand (k + j))
                    \<lparr>pending = Some pchan, language = req_Language request,
                       start = clock (Suc (k + j))\<rparr> (entries (jobs w)) \<and>
                runners w' = fmupd pchan
                    \<lparr>runner_config = path, runner_tokens = req_Tokens request, pc = AtRun\<rparr>
                    (runners w)"
        using before by blast
      moreover have "chans w' = chans w" using ch by simp
      ultimately show ?thesis
        using step run lt by auto
    qed
  qed
qed

lemma profile_loop_collides:
  assumes "profile_loop cfg clock rand path request pchan k w = Some y"
  shows "\<not> (len (jobs w) < capacity cfg \<and>
      (\<forall>n. fmlookup (entries (jobs w)) (nth_ID rand n) \<noteq> None))"
proof (rule profile_loop.raw_induct
    [where P = "\<lambda>cfg clock rand path request pchan k w y.
       \<not> (len (jobs w) < capacity cfg \<and>
          (\<forall>n. fmlookup (entries (jobs w)) (nth_ID rand n) \<noteq> None))",
     OF _ assms], goal_cases)
  case (1 loop cfg clock rand path request pchan k w y)
  let ?p = "put cfg (clock (Suc k)) (req_Language request) (nth_ID rand k) pchan (jobs w)"
  show ?case
  proof
    assume c: "len (jobs w) < capacity cfg \<and>
      (\<forall>n. fmlookup (entries (jobs w)) (nth_ID rand n) \<noteq> None)"
    then have nu: "fst ?p = putJobNotUnique"
      by (simp add: fst_put)
    have same: "entries (snd ?p) = entries (jobs w)"
      using c by (simp add: entries_put)
    have len1: "len (snd ?p) = len (jobs w)"
      using same by (simp add: len_def)
    from 1(2) nu
    have "loop cfg clock rand path request pchan (Suc k) (w\<lparr>jobs := snd ?p\<rparr>) = Some y"
      by (simp add: case_prod_beta Let_def)
    from 1(1) [OF this] same len1 c show False by simp
  qed
qed

lemma profile_loop_never_returns:
  assumes "len (jobs w) < capacity cfg"
      and "\<forall>n. fmlookup (entries (jobs w)) (nth_ID rand n) \<noteq> None"
  shows "profile_loop cfg clock rand path request pchan k w = None"
proof (cases "profile_loop cfg clock rand path request pchan k w")
  case None
  then show ?thesis .
next
  case (Some y)
  from profile_loop_collides [OF this] assms show ?thesis by blast
qed

lemma nth_ID_rand_a: "nth_ID rand_a k = ''aaaaaaaaaaaaaaaa''"
  by (simp add: nth_ID_def generateRandomID_def rand_a_def Intn_def letters_def upt_rec)

lemma nth_ID_rand_aab:
  "nth_ID rand_aab 0 = ''aaaaaaaaaaaaaaaa''"
  "nth_ID rand_aab 1 = ''aaaaaaaaaaaaaaaa''"
  "nth_ID rand_aab 2 = ''bbbbbbbbbbbbbbbb''"
  "nth_ID rand_aab (Suc 0) = ''aaaaaaaaaaaaaaaa''"
  "nth_ID rand_aab (Suc (Suc 0)) = ''bbbbbbbbbbbbbbbb''"
  by (simp_all add: nth_ID_def generateRandomID_def rand_aab_def Intn_def letters_def upt_rec)

text \<open>Two runs of \<^verbatim>\<open>profile\<close>: one that collides twice and then finds a free token, and one
  whose random source collides for ever, so the call does not return.\<close>

lemma profile_retry_example:
  "profile cfg2 clock0 rand_aab w_a ''eng.ini'' req_eng =
     Some (RToken \<lparr>ID = ''bbbbbbbbbbbbbbbb''\<rparr>,
           \<lparr>jobs = \<lparr>jm_m = Some (fmupd ''bbbbbbbbbbbbbbbb''
              \<lparr>pending = Some 1, language = ''eng'', start = 3\<rparr> (fmupd ''aaaaaaaaaaaaaaaa''
              \<lparr>pending = Some 0, language = ''eng'', start = 0\<rparr> fmempty))\<rparr>,
             chans = 2,
             runners = fmupd 1
               \<lparr>runner_config = ''eng.ini'', runner_tokens = [''foo'', ''bar''], pc = AtRun\<rparr>
               fmempty\<rparr>)"
proof -
  define W :: world where "W = \<lparr>jobs = jm_a, chans = 2, runners = fmempty\<rparr>"
  have e: "clean cfg2 (clock0 0) jm_a = jm_a" by code_simp
  have start: "profile cfg2 clock0 rand_aab w_a ''eng.ini'' req_eng =
                 profile_loop cfg2 clock0 rand_aab ''eng.ini'' req_eng 1 0 W"
    by (simp add: profile_def Let_def w_a_def e W_def numeral_2_eq_2)
  have l: "len (jobs W) < capacity cfg2" unfolding W_def by code_simp
  have d: "fmlookup (entries (jobs W)) ''aaaaaaaaaaaaaaaa'' \<noteq> None" unfolding W_def by code_simp
  have f: "fmlookup (entries (jobs W)) ''bbbbbbbbbbbbbbbb'' = None" unfolding W_def by code_simp
  have p: "W\<lparr>jobs := snd (put cfg2 now lang ''aaaaaaaaaaaaaaaa'' pchan (jobs W))\<rparr> = W"
    for now lang pchan
    by (simp add: put_def jm_a_def Let_def cfg2_def capacity_def W_def)
  have q: "W\<lparr>jobs := snd (put cfg2 (clock0 3) (req_Language req_eng) ''bbbbbbbbbbbbbbbb''
                            (Suc 0) (jobs W)),
            runners := fmupd (Suc 0)
               \<lparr>runner_config = ''eng.ini'', runner_tokens = req_Tokens req_eng, pc = AtRun\<rparr>
               (runners W)\<rparr> =
      \<lparr>jobs = \<lparr>jm_m = Some (fmupd ''bbbbbbbbbbbbbbbb''
              \<lparr>pending = Some 1, language = ''eng'', start = 3\<rparr> (fmupd ''aaaaaaaaaaaaaaaa''
              \<lparr>pending = Some 0, language = ''eng'', start = 0\<rparr> fmempty))\<rparr>,
             chans = 2,
             runners = fmupd 1
               \<lparr>runner_config = ''eng.ini'', runner_tokens = [''foo'', ''bar''], pc = AtRun\<rparr>
               fmempty\<rparr>"
    unfolding W_def by code_simp
  have "profile_loop cfg2 clock0 rand_aab ''eng.ini'' req_eng 1 0 W =
        profile_loop cfg2 clock0 rand_aab ''eng.ini'' req_eng 1 1 W"
    using profile_loop_retry [where w = W and cfg = cfg2 and rand = rand_aab and k = 0
        and clock = clock0 and path = "''eng.ini''" and request = req_eng and pchan = 1] l d
    by (simp add: nth_ID_rand_aab p)
  also have "\<dots> = profile_loop cfg2 clock0 rand_aab ''eng.ini'' req_eng 1 2 W"
    using profile_loop_retry [where w = W and cfg = cfg2 and rand = rand_aab and k = 1
        and clock = clock0 and path = "''eng.ini''" and request = req_eng and pchan = 1] l d
    by (simp add: nth_ID_rand_aab p numeral_2_eq_2)
  also have "\<dots> = Some (RToken \<lparr>ID = ''bbbbbbbbbbbbbbbb''\<rparr>,
           \<lparr>jobs = \<lparr>jm_m = Some (fmupd ''bbbbbbbbbbbbbbbb''
              \<lparr>pending = Some 1, language = ''eng'', start = 3\<rparr> (fmupd ''aaaaaaaaaaaaaaaa''
              \<lparr>pending = Some 0, language = ''eng'', start = 0\<rparr> fmempty))\<rparr>,
             chans = 2,
             runners = fmupd 1
               \<lparr>runner_config = ''eng.ini'', runner_tokens = [''foo'', ''bar''], pc = AtRun\<rparr>
               fmempty\<rparr>)"
    using profile_loop_ok [where w = W and cfg = cfg2 and rand = rand_aab and k = 2
        and clock = clock0 and path = "''eng.ini''" and request = req_eng and pchan = 1] l f q
    by (simp add: nth_ID_rand_aab numeral_3_eq_3)
  finally show ?thesis using start by simp
qed

lemma profile_collides_forever_example:
  "profile cfg2 clock0 rand_a w_a ''eng.ini'' req_eng = None"
proof -
  have e: "clean cfg2 (clock0 0) jm_a = jm_a" by code_simp
  have l: "len jm_a < capacity cfg2" by code_simp
  have d: "fmlookup (entries jm_a) ''aaaaaaaaaaaaaaaa'' \<noteq> None" by code_simp
  show ?thesis
    unfolding profile_def Let_def
    by (rule profile_loop_never_returns) (simp_all add: w_a_def e l d nth_ID_rand_a)
qed

section \<open>Facts about the job runner\<close>

lemma runProfiler_step_inv:
  assumes "st \<in> {(AtRun, []), (AtSend r, []), (AtClose, [Send r]), (Finished, [Send r, Close])}"
  shows "(fst (runProfiler_step r e (fst st)), snd st @ snd (runProfiler_step r e (fst st))) \<in>
     {(AtRun, []), (AtSend r, []), (AtClose, [Send r]), (Finished, [Send r, Close])}"
proof -
  from assms consider "st = (AtRun, [])" | "st = (AtSend r, [])" | "st = (AtClose, [Send r])"
    | "st = (Finished, [Send r, Close])" by blast
  then show ?thesis
  proof cases
    case 1
    then show ?thesis by simp
  next
    case 2
    then show ?thesis by simp
  next
    case 3
    then show ?thesis by simp
  next
    case 4
    then show ?thesis by simp
  qed
qed

lemma runProfiler_upto_inv:
  "runProfiler_upto r sched n \<in>
     {(AtRun, []), (AtSend r, []), (AtClose, [Send r]), (Finished, [Send r, Close])}"
proof (induction n)
  case 0
  show ?case by simp
next
  case (Suc n)
  from runProfiler_step_inv [OF Suc, of "sched n"] show ?case
    by (simp only: runProfiler_upto.simps case_prod_beta)
qed

lemma runProfiler_upto_Suc:
  "runProfiler_upto r sched (Suc n) =
     (fst (runProfiler_step r (sched n) (fst (runProfiler_upto r sched n))),
      snd (runProfiler_upto r sched n) @
      snd (runProfiler_step r (sched n) (fst (runProfiler_upto r sched n))))"
  by (simp add: case_prod_beta)

lemma runProfiler_from_upto:
  "runProfiler_from r sched n (fst (runProfiler_upto r sched n))
     (snd (runProfiler_upto r sched n)) = runProfiler r sched"
proof (induction n)
  case 0
  show ?case by (simp add: runProfiler_def)
next
  case (Suc n)
  let ?pc = "fst (runProfiler_upto r sched n)"
  let ?evs = "snd (runProfiler_upto r sched n)"
  have "runProfiler_from r sched n ?pc ?evs =
        runProfiler_from r sched (Suc n) (fst (runProfiler_upto r sched (Suc n)))
          (snd (runProfiler_upto r sched (Suc n)))"
  proof (cases "?pc = Finished")
    case True
    then have "runProfiler_from r sched n ?pc ?evs = Some ?evs"
      by (subst runProfiler_from.simps) simp
    moreover from True have "runProfiler_upto r sched (Suc n) = (Finished, ?evs)"
      by (simp add: case_prod_beta)
    moreover have "runProfiler_from r sched (Suc n) Finished ?evs = Some ?evs"
      by (subst runProfiler_from.simps) simp
    ultimately show ?thesis by simp
  next
    case False
    then show ?thesis
      by (subst runProfiler_from.simps) (simp add: case_prod_beta)
  qed
  with Suc show ?case by simp
qed

lemma runProfiler_finished:
  assumes "fst (runProfiler_upto r sched n) = Finished"
  shows "runProfiler r sched = Some [Send r, Close]"
proof -
  from assms runProfiler_upto_inv [of r sched n]
  have "runProfiler_upto r sched n = (Finished, [Send r, Close])"
    by auto
  with runProfiler_from_upto [of r sched n] show ?thesis
    by (subst (asm) runProfiler_from.simps) simp
qed


lemma runProfiler_from_Some:
  assumes "runProfiler_from r sched i at evs = Some y"
  shows "(at, evs) = runProfiler_upto r sched i \<longrightarrow>
         (\<exists>n. fst (runProfiler_upto r sched n) = Finished)"
proof (rule runProfiler_from.raw_induct
    [where P = "\<lambda>r sched i at evs y. (at, evs) = runProfiler_upto r sched i \<longrightarrow>
         (\<exists>n. fst (runProfiler_upto r sched n) = Finished)", OF _ assms], goal_cases)
  case (1 run r sched i at evs y)
  show ?case
  proof
    assume here: "(at, evs) = runProfiler_upto r sched i"
    show "\<exists>n. fst (runProfiler_upto r sched n) = Finished"
    proof (cases "at = Finished")
      case True
      with here have "fst (runProfiler_upto r sched i) = Finished"
        by (metis fst_conv)
      then show ?thesis ..
    next
      case False
      let ?st = "runProfiler_step r (sched i) at"
      from 1(2) False have "run r sched (Suc i) (fst ?st) (evs @ snd ?st) = Some y"
        by (simp add: case_prod_beta)
      moreover have "(fst ?st, evs @ snd ?st) = runProfiler_upto r sched (Suc i)"
        using here [symmetric] by (simp add: case_prod_beta)
      ultimately show ?thesis using 1(1) by blast
    qed
  qed
qed

lemma runProfiler_blocked:
  assumes "\<forall>n. fst (runProfiler_upto r sched n) \<noteq> Finished"
  shows "runProfiler r sched = None"
proof (cases "runProfiler r sched")
  case None
  then show ?thesis .
next
  case (Some y)
  then have "runProfiler_from r sched 0 AtRun [] = Some y"
    by (simp add: runProfiler_def)
  from runProfiler_from_Some [OF this] assms show ?thesis by simp
qed



lemma progress_step: "progress at \<le> progress (fst (runProfiler_step r e at))"
  by (cases at) simp_all

lemma progress_upto_Suc:
  "progress (fst (runProfiler_upto r sched n)) \<le> progress (fst (runProfiler_upto r sched (Suc n)))"
  by (simp add: case_prod_beta progress_step)

lemma progress_upto_mono:
  "n \<le> m \<Longrightarrow>
   progress (fst (runProfiler_upto r sched n)) \<le> progress (fst (runProfiler_upto r sched m))"
  by (rule lift_Suc_mono_le [of "\<lambda>n. progress (fst (runProfiler_upto r sched n))"])
     (rule progress_upto_Suc)

lemma progress_after_run:
  assumes "run_finished (sched i)"
  shows "1 \<le> progress (fst (runProfiler_upto r sched (Suc i)))"
  using assms by (cases "fst (runProfiler_upto r sched i)") (simp_all add: case_prod_beta)

lemma progress_after_receive:
  assumes "1 \<le> progress (fst (runProfiler_upto r sched j))" and "receiver (sched j)"
  shows "2 \<le> progress (fst (runProfiler_upto r sched (Suc j)))"
  using assms by (cases "fst (runProfiler_upto r sched j)") (simp_all add: case_prod_beta)

lemma progress_after_close:
  assumes "2 \<le> progress (fst (runProfiler_upto r sched n))"
  shows "fst (runProfiler_upto r sched (Suc n)) = Finished"
  using assms by (cases "fst (runProfiler_upto r sched n)") (simp_all add: case_prod_beta)

lemma runProfiler_reaches_Finished:
  assumes "i < j" and "run_finished (sched i)" and "receiver (sched j)"
  shows "fst (runProfiler_upto r sched (Suc (Suc j))) = Finished"
proof -
  have "1 \<le> progress (fst (runProfiler_upto r sched (Suc i)))"
    using assms(2) by (rule progress_after_run)
  also have "\<dots> \<le> progress (fst (runProfiler_upto r sched j))"
    using assms(1) by (intro progress_upto_mono) simp
  finally have "2 \<le> progress (fst (runProfiler_upto r sched (Suc j)))"
    using assms(3) by (rule progress_after_receive)
  then show ?thesis by (rule progress_after_close)
qed


lemma fst_runProfiler_upto_Suc:
  "fst (runProfiler_upto r sched (Suc n)) =
     fst (runProfiler_step r (sched n) (fst (runProfiler_upto r sched n)))"
  by (simp only: runProfiler_upto_Suc fst_conv)

lemma step_leaves_AtRun:
  "progress at = 0 \<Longrightarrow> 1 \<le> progress (fst (runProfiler_step r e at)) \<Longrightarrow> run_finished e"
  by (cases at) (simp_all split: if_splits)

lemma step_passes_send:
  "progress at < 2 \<Longrightarrow> 2 \<le> progress (fst (runProfiler_step r e at)) \<Longrightarrow>
   1 \<le> progress at \<and> receiver e"
  by (cases at) (simp_all split: if_splits)

lemma progress_needs_run:
  "1 \<le> progress (fst (runProfiler_upto r sched n)) \<Longrightarrow> \<exists>i<n. run_finished (sched i)"
proof (induction n)
  case 0
  then show ?case by simp
next
  case (Suc n)
  show ?case
  proof (cases "1 \<le> progress (fst (runProfiler_upto r sched n))")
    case True
    from Suc.IH [OF True] obtain i where "i < n" "run_finished (sched i)" by blast
    then have "i < Suc n \<and> run_finished (sched i)" by simp
    then show ?thesis by blast
  next
    case False
    then have z: "progress (fst (runProfiler_upto r sched n)) = 0" by simp
    from Suc.prems
    have "1 \<le> progress (fst (runProfiler_step r (sched n) (fst (runProfiler_upto r sched n))))"
      by (simp only: fst_runProfiler_upto_Suc)
    with z have "run_finished (sched n)" by (rule step_leaves_AtRun)
    then have "n < Suc n \<and> run_finished (sched n)" by simp
    then show ?thesis by blast
  qed
qed

lemma progress_needs_receiver:
  "2 \<le> progress (fst (runProfiler_upto r sched n)) \<Longrightarrow>
   \<exists>i j. i < j \<and> j < n \<and> run_finished (sched i) \<and> receiver (sched j)"
proof (induction n)
  case 0
  then show ?case by simp
next
  case (Suc n)
  show ?case
  proof (cases "2 \<le> progress (fst (runProfiler_upto r sched n))")
    case True
    from Suc.IH [OF True] obtain i j
      where "i < j" "j < n" "run_finished (sched i)" "receiver (sched j)" by blast
    then have "i < j \<and> j < Suc n \<and> run_finished (sched i) \<and> receiver (sched j)" by simp
    then show ?thesis by blast
  next
    case False
    then have lt: "progress (fst (runProfiler_upto r sched n)) < 2" by simp
    from Suc.prems
    have "2 \<le> progress (fst (runProfiler_step r (sched n) (fst (runProfiler_upto r sched n))))"
      by (simp only: fst_runProfiler_upto_Suc)
    with lt have "1 \<le> progress (fst (runProfiler_upto r sched n)) \<and> receiver (sched n)"
      by (rule step_passes_send)
    then have one: "1 \<le> progress (fst (runProfiler_upto r sched n))"
      and rc: "receiver (sched n)" by blast+
    from progress_needs_run [OF one] obtain i where "i < n" "run_finished (sched i)" by blast
    with rc have "i < n \<and> n < Suc n \<and> run_finished (sched i) \<and> receiver (sched n)" by simp
    then show ?thesis by blast
  qed
qed

lemma runProfiler_Finished_iff:
  "(\<exists>n. fst (runProfiler_upto r sched n) = Finished) \<longleftrightarrow>
   (\<exists>i j. i < j \<and> run_finished (sched i) \<and> receiver (sched j))"
proof
  assume "\<exists>n. fst (runProfiler_upto r sched n) = Finished"
  then obtain n where "fst (runProfiler_upto r sched n) = Finished" ..
  then have "2 \<le> progress (fst (runProfiler_upto r sched n))" by simp
  from progress_needs_receiver [OF this]
  show "\<exists>i j. i < j \<and> run_finished (sched i) \<and> receiver (sched j)" by blast
next
  assume "\<exists>i j. i < j \<and> run_finished (sched i) \<and> receiver (sched j)"
  then obtain i j where "i < j" "run_finished (sched i)" "receiver (sched j)" by blast
  then have "fst (runProfiler_upto r sched (Suc (Suc j))) = Finished"
    by (rule runProfiler_reaches_Finished)
  then show "\<exists>n. fst (runProfiler_upto r sched n) = Finished" ..
qed

lemma runProfiler_eq:
  "runProfiler r sched =
     (if \<exists>i j. i < j \<and> run_finished (sched i) \<and> receiver (sched j)
      then Some [Send r, Close] else None)"
proof (cases "\<exists>n. fst (runProfiler_upto r sched n) = Finished")
  case True
  then obtain n where "fst (runProfiler_upto r sched n) = Finished" ..
  then have "runProfiler r sched = Some [Send r, Close]" by (rule runProfiler_finished)
  with True show ?thesis by (simp add: runProfiler_Finished_iff)
next
  case False
  then have "runProfiler r sched = None" by (intro runProfiler_blocked) simp
  with False show ?thesis by (simp add: runProfiler_Finished_iff)
qed

lemma snd_runProfiler_upto:
  "snd (runProfiler_upto r sched n) \<in> {[], [Send r], [Send r, Close]}"
  using runProfiler_upto_inv [of r sched n]
  by (cases "runProfiler_upto r sched n") auto

lemma runProfiler_received_example:
  "runProfiler r_ok (received_at 2) = Some [Send r_ok, Close]"
proof -
  have "\<exists>i j. i < j \<and> run_finished (received_at 2 i) \<and> receiver (received_at 2 j)"
    by (intro exI [of _ 0] exI [of _ 2]) (simp add: received_at_def)
  then show ?thesis by (simp add: runProfiler_eq)
qed

section \<open>The claims about the job table\<close>

text \<open>
  C2. Starting from the empty table, after every sequence of \<^verbatim>\<open>put\<close>, \<^verbatim>\<open>del\<close> and
  \<^verbatim>\<open>clean\<close> the number of entries is at most the configured \<^verbatim>\<open>maxJobs\<close>; and a
  \<^verbatim>\<open>put\<close> on a table that holds \<^verbatim>\<open>maxJobs\<close> entries returns \<^verbatim>\<open>putJobFull\<close> and leaves the
  entries as they are.
\<close>

theorem capacity_invariant:
  "fcard (fmdom (entries (run_ops cfg ops))) \<le> unat (maxJobs cfg) \<and>
   (fcard (fmdom (entries (run_ops cfg ops))) = unat (maxJobs cfg) \<longrightarrow>
      fst (put cfg now lang token pchan (run_ops cfg ops)) = putJobFull \<and>
      entries (snd (put cfg now lang token pchan (run_ops cfg ops))) = entries (run_ops cfg ops))"
proof -
  let ?jm = "run_ops cfg ops"
  have "len ?jm \<le> uint (maxJobs cfg)" by (rule len_run_ops)
  then have "int (fcard (fmdom (entries ?jm))) \<le> int (unat (maxJobs cfg))"
    by (simp add: len_def)
  then have first: "fcard (fmdom (entries ?jm)) \<le> unat (maxJobs cfg)"
    by linarith
  have second: "fst (put cfg now lang token pchan ?jm) = putJobFull \<and>
      entries (snd (put cfg now lang token pchan ?jm)) = entries ?jm"
    if full: "fcard (fmdom (entries ?jm)) = unat (maxJobs cfg)"
  proof -
    from full have "len ?jm = uint (maxJobs cfg)" by (simp add: len_def)
    with capacity_le_uint [of cfg] have "len ?jm \<ge> capacity cfg" by linarith
    then show ?thesis by (simp add: fst_put entries_put)
  qed
  from first second show ?thesis by blast
qed

theorem capacity_invariant_witness:
  "fcard (fmdom (entries (run_ops cfg1 [Put 0 ''eng'' ''T1'' 0]))) = unat (maxJobs cfg1) \<and>
   fst (put cfg1 5 ''deu'' ''T2'' 1 (run_ops cfg1 [Put 0 ''eng'' ''T1'' 0])) = putJobFull \<and>
   entries (snd (put cfg1 5 ''deu'' ''T2'' 1 (run_ops cfg1 [Put 0 ''eng'' ''T1'' 0])))
     = entries (run_ops cfg1 [Put 0 ''eng'' ''T1'' 0])"
proof -
  have h: "fcard (fmdom (entries (run_ops cfg1 [Put 0 ''eng'' ''T1'' 0]))) = unat (maxJobs cfg1)"
    by code_simp
  show ?thesis
    using h capacity_invariant [where cfg = cfg1 and ops = "[Put 0 ''eng'' ''T1'' 0]"
        and now = 5 and lang = "''deu''" and token = "''T2''" and pchan = 1]
    by blast
qed

text \<open>
  C3. \<^verbatim>\<open>put\<close> on any table: when the size is at least the capacity (the code's
  \<^verbatim>\<open>int(maxJobs)\<close>) it returns \<^verbatim>\<open>putJobFull\<close> and the entries are unchanged; otherwise,
  when the token is a key of the table, it returns \<^verbatim>\<open>putJobNotUnique\<close> and the entries
  are unchanged; otherwise it returns \<^verbatim>\<open>putJobOK\<close> and the entries are the old ones plus
  the record with that language, the current time as start and the given channel, under
  that token.
\<close>

theorem put_cases:
  "(len jm \<ge> capacity cfg \<longrightarrow>
      fst (put cfg now lang token pchan jm) = putJobFull \<and>
      entries (snd (put cfg now lang token pchan jm)) = entries jm) \<and>
   (len jm < capacity cfg \<and> fmlookup (entries jm) token \<noteq> None \<longrightarrow>
      fst (put cfg now lang token pchan jm) = putJobNotUnique \<and>
      entries (snd (put cfg now lang token pchan jm)) = entries jm) \<and>
   (len jm < capacity cfg \<and> fmlookup (entries jm) token = None \<longrightarrow>
      fst (put cfg now lang token pchan jm) = putJobOK \<and>
      entries (snd (put cfg now lang token pchan jm)) =
        fmupd token \<lparr>pending = Some pchan, language = lang, start = now\<rparr> (entries jm))"
  by (simp add: fst_put entries_put)

theorem put_cases_witness:
  "(len jm_T1 \<ge> capacity cfg1 \<and>
      fst (put cfg1 7 ''deu'' ''T2'' 1 jm_T1) = putJobFull \<and>
      entries (snd (put cfg1 7 ''deu'' ''T2'' 1 jm_T1)) = entries jm_T1) \<and>
   (len jm_T1 < capacity cfg2 \<and> fmlookup (entries jm_T1) ''T1'' \<noteq> None \<and>
      fst (put cfg2 7 ''deu'' ''T1'' 1 jm_T1) = putJobNotUnique \<and>
      entries (snd (put cfg2 7 ''deu'' ''T1'' 1 jm_T1)) = entries jm_T1) \<and>
   (len jm_T1 < capacity cfg2 \<and> fmlookup (entries jm_T1) ''T2'' = None \<and>
      fst (put cfg2 7 ''deu'' ''T2'' 1 jm_T1) = putJobOK \<and>
      entries (snd (put cfg2 7 ''deu'' ''T2'' 1 jm_T1)) =
        fmupd ''T2'' \<lparr>pending = Some 1, language = ''deu'', start = 7\<rparr> (entries jm_T1))"
proof -
  have h1: "len jm_T1 \<ge> capacity cfg1" by code_simp
  have h2: "len jm_T1 < capacity cfg2" by code_simp
  have h3: "fmlookup (entries jm_T1) ''T1'' \<noteq> None" by code_simp
  have h4: "fmlookup (entries jm_T1) ''T2'' = None" by code_simp
  show ?thesis
    using h1 h2 h3 h4
      put_cases [where jm = jm_T1 and cfg = cfg1 and now = 7 and lang = "''deu''"
                   and token = "''T2''" and pchan = 1]
      put_cases [where jm = jm_T1 and cfg = cfg2 and now = 7 and lang = "''deu''"
                   and token = "''T1''" and pchan = 1]
      put_cases [where jm = jm_T1 and cfg = cfg2 and now = 7 and lang = "''deu''"
                   and token = "''T2''" and pchan = 1]
    by blast
qed

text \<open>
  C5. \<^verbatim>\<open>clean\<close> at time \<open>now\<close>, with \<open>d = delta cfg\<close> the timeout as a duration: a token
  whose entry has \<open>now - start > d\<close> is absent afterwards, a token whose entry does not
  exceed \<open>d\<close> keeps its entry unchanged (and a token without an entry stays without one).
\<close>

theorem clean_lookup:
  "fmlookup (entries (clean cfg now jm)) token =
     (case fmlookup (entries jm) token of
        None \<Rightarrow> None
      | Some job \<Rightarrow> if now - start job > delta cfg then None else Some job)"
  by (auto simp: entries_clean forDeletion_iff split: option.splits)

text \<open>
  C9. On the table into which nothing was ever put (the map is nil), \<^verbatim>\<open>get\<close> finds
  nothing and returns the zero job, \<^verbatim>\<open>del\<close> and \<^verbatim>\<open>clean\<close> leave the table as it is (the
  map stays nil), and \<^verbatim>\<open>put\<close> is the operation after which the map is no longer nil.
  \<^verbatim>\<open>get\<close> returns no table: it cannot change it.
\<close>

theorem nil_map_safe:
  "get zero_jobMap token = (zero_job, False) \<and>
   del token zero_jobMap = zero_jobMap \<and>
   clean cfg now zero_jobMap = zero_jobMap \<and>
   jm_m zero_jobMap = None \<and>
   jm_m (snd (put cfg now lang token' pchan zero_jobMap)) \<noteq> None"
  by (simp add: get_def del_def clean_def put_def zero_jobMap_def Let_def)

text \<open>
  C10. On a table whose size has reached the capacity, \<^verbatim>\<open>put\<close> returns \<^verbatim>\<open>putJobFull\<close>
  for every token, also for one that is a key of the table: the size is checked before
  the token, so such a table never answers \<^verbatim>\<open>putJobNotUnique\<close>.
\<close>

theorem put_full_first:
  "len jm \<ge> capacity cfg \<Longrightarrow>
     fst (put cfg now lang token pchan jm) = putJobFull \<and>
     fst (put cfg now lang token pchan jm) \<noteq> putJobNotUnique"
  by (simp add: fst_put)

theorem put_full_first_witness:
  "len jm_T1 \<ge> capacity cfg1 \<and> fmlookup (entries jm_T1) ''T1'' \<noteq> None \<and>
   fst (put cfg1 7 ''deu'' ''T1'' 1 jm_T1) = putJobFull \<and>
   fst (put cfg1 7 ''deu'' ''T1'' 1 jm_T1) \<noteq> putJobNotUnique"
proof -
  have h1: "len jm_T1 \<ge> capacity cfg1" by code_simp
  have h3: "fmlookup (entries jm_T1) ''T1'' \<noteq> None" by code_simp
  show ?thesis
    using h1 h3 put_full_first [OF h1, where now = 7 and lang = "''deu''" and token = "''T1''"
        and pchan = 1]
    by blast
qed

section \<open>The claims about the handlers\<close>

text \<open>
  C1. The claim: a poll of a token that is in the table, while its channel has produced no
  value yet, returns at once with \<open>Done = False\<close> and a placeholder status, and the job
  stays in the table. The code: the \<^verbatim>\<open>select\<close> in \<^verbatim>\<open>getProfile\<close> has no \<^verbatim>\<open>default\<close> case,
  so the handler waits for the runner. In the state \<open>w_running\<close> the token \<open>T1\<close> is found,
  nothing can be received from its channel, and the call does not return in this state.
\<close>

theorem getProfile_running_blocks:
  "get (jobs w_running) ''T1'' = (\<lparr>pending = Some 0, language = ''eng'', start = 0\<rparr>, True) \<and>
   recv w_running (Some 0) = None \<and>
   getProfile w_running rand \<lparr>ID = ''T1''\<rparr> = None \<and>
   (poll_step rand \<lparr>ID = ''T1''\<rparr> ^^ n)
      (AtSelect \<lparr>pending = Some 0, language = ''eng'', start = 0\<rparr>, w_running) =
      (AtSelect \<lparr>pending = Some 0, language = ''eng'', start = 0\<rparr>, w_running)"
proof -
  have g: "get (jobs w_running) ''T1'' = (\<lparr>pending = Some 0, language = ''eng'', start = 0\<rparr>, True)"
    by (simp add: get_def w_running_def jm_T1_def)
  have r: "recv w_running (Some 0) = None"
    by (simp add: recv_def w_running_def)
  have l: "fmlookup (entries (jobs w_running)) (ID \<lparr>ID = ''T1''\<rparr>) =
             Some \<lparr>pending = Some 0, language = ''eng'', start = 0\<rparr>"
    by (simp add: w_running_def jm_T1_def entries_def)
  have r': "recv w_running (pending \<lparr>pending = Some 0, language = ''eng'', start = 0\<rparr>) = None"
    using r by simp
  from g r getProfile_not_ready [OF l r'] poll_steps_blocked [OF r'] show ?thesis
    by blast
qed




text \<open>
  C6. \<^verbatim>\<open>profile\<close> first sweeps the table with \<^verbatim>\<open>clean\<close>, then calls \<^verbatim>\<open>put\<close> with a
  generated token on the swept table. When that \<^verbatim>\<open>put\<close> returns \<^verbatim>\<open>putJobFull\<close> the
  response is the status 503 and the runners are those of before; when it returns
  \<^verbatim>\<open>putJobOK\<close> the response is the generated token and a runner has been added, at the
  start of \<^verbatim>\<open>runProfiler\<close>, on the channel made for this request.
\<close>

theorem profile_first_attempt:
  assumes "put cfg (clock 1) (req_Language request) (nth_ID rand 0) (chans w)
             (clean cfg (clock 0) (jobs w)) = (res, jm)"
  shows "(res = putJobFull \<longrightarrow>
            profile cfg clock rand w path request =
              Some (RStatus StatusServiceUnavailable,
                    w\<lparr>chans := Suc (chans w), jobs := jm\<rparr>)) \<and>
         (res = putJobOK \<longrightarrow>
            profile cfg clock rand w path request =
              Some (RToken \<lparr>ID = nth_ID rand 0\<rparr>,
                    w\<lparr>chans := Suc (chans w), jobs := jm,
                      runners := fmupd (chans w)
                        \<lparr>runner_config = path, runner_tokens = req_Tokens request, pc = AtRun\<rparr>
                        (runners w)\<rparr>))"
  using assms
  by (simp add: profile_def Let_def) (subst profile_loop.simps, simp add: Let_def)+

theorem profile_first_attempt_witness:
  "(put cfg1 (clock0 1) (req_Language req_eng) (nth_ID rand_a 0) (chans w_T1)
      (clean cfg1 (clock0 0) (jobs w_T1)) = (putJobFull, jm_T1) \<and>
    profile cfg1 clock0 rand_a w_T1 ''eng.ini'' req_eng =
      Some (RStatus StatusServiceUnavailable,
            \<lparr>jobs = jm_T1, chans = 2, runners = fmempty\<rparr>)) \<and>
   (put cfg2 (clock0 1) (req_Language req_eng) (nth_ID rand_a 0) (chans w_T1)
      (clean cfg2 (clock0 0) (jobs w_T1)) =
        (putJobOK, \<lparr>jm_m = Some (fmupd ''aaaaaaaaaaaaaaaa''
              \<lparr>pending = Some 1, language = ''eng'', start = 1\<rparr> (fmupd ''T1''
              \<lparr>pending = Some 0, language = ''eng'', start = 0\<rparr> fmempty))\<rparr>) \<and>
    profile cfg2 clock0 rand_a w_T1 ''eng.ini'' req_eng =
      Some (RToken \<lparr>ID = ''aaaaaaaaaaaaaaaa''\<rparr>,
            \<lparr>jobs = \<lparr>jm_m = Some (fmupd ''aaaaaaaaaaaaaaaa''
              \<lparr>pending = Some 1, language = ''eng'', start = 1\<rparr> (fmupd ''T1''
              \<lparr>pending = Some 0, language = ''eng'', start = 0\<rparr> fmempty))\<rparr>,
             chans = 2,
             runners = fmupd 1
               \<lparr>runner_config = ''eng.ini'', runner_tokens = [''foo'', ''bar''], pc = AtRun\<rparr>
               fmempty\<rparr>))"
proof -
  have full: "put cfg1 (clock0 1) (req_Language req_eng) (nth_ID rand_a 0) (chans w_T1)
      (clean cfg1 (clock0 0) (jobs w_T1)) = (putJobFull, jm_T1)"
    by code_simp
  have ok: "put cfg2 (clock0 1) (req_Language req_eng) (nth_ID rand_a 0) (chans w_T1)
      (clean cfg2 (clock0 0) (jobs w_T1)) =
        (putJobOK, \<lparr>jm_m = Some (fmupd ''aaaaaaaaaaaaaaaa''
              \<lparr>pending = Some 1, language = ''eng'', start = 1\<rparr> (fmupd ''T1''
              \<lparr>pending = Some 0, language = ''eng'', start = 0\<rparr> fmempty))\<rparr>)"
    by code_simp
  show ?thesis
    using full ok
      profile_first_attempt [OF full, of "''eng.ini''"]
      profile_first_attempt [OF ok, of "''eng.ini''"]
    by (simp add: w_T1_def req_eng_def nth_ID_rand_a)
qed

text \<open>
  C7. When \<^verbatim>\<open>put\<close> answers \<^verbatim>\<open>putJobNotUnique\<close> the handler generates the next
  token and tries again. If the generator returns, at some attempt \<open>n\<close>, a token that is
  not in the (swept) table, the call returns: either the status 503, or the token of an
  attempt \<open>j \<le> n\<close> which was not in the table while all tokens of the attempts before \<open>j\<close>
  were; the job is stored under that token and its runner is started. No other response
  is possible, so a collision never reaches the client.
\<close>

theorem profile_retries_until_fresh:
  assumes "fmlookup (entries (clean cfg (clock 0) (jobs w))) (nth_ID rand n) = None"
  shows "\<exists>resp w'. profile cfg clock rand w path request = Some (resp, w') \<and>
           ((resp = RStatus StatusServiceUnavailable \<and>
             len (clean cfg (clock 0) (jobs w)) \<ge> capacity cfg \<and>
             entries (jobs w') = entries (clean cfg (clock 0) (jobs w)) \<and>
             runners w' = runners w) \<or>
            (\<exists>j\<le>n. resp = RToken \<lparr>ID = nth_ID rand j\<rparr> \<and>
               fmlookup (entries (clean cfg (clock 0) (jobs w))) (nth_ID rand j) = None \<and>
               (\<forall>i<j. fmlookup (entries (clean cfg (clock 0) (jobs w))) (nth_ID rand i) \<noteq> None) \<and>
               entries (jobs w') =
                 fmupd (nth_ID rand j)
                   \<lparr>pending = Some (chans w), language = req_Language request,
                      start = clock (Suc j)\<rparr> (entries (clean cfg (clock 0) (jobs w))) \<and>
               runners w' = fmupd (chans w)
                   \<lparr>runner_config = path, runner_tokens = req_Tokens request, pc = AtRun\<rparr>
                   (runners w)))"
proof -
  let ?w2 = "w\<lparr>chans := Suc (chans w), jobs := clean cfg (clock 0) (jobs w)\<rparr>"
  have "fmlookup (entries (jobs ?w2)) (nth_ID rand (0 + n)) = None"
    using assms by simp
  from profile_loop_returns [OF this, of cfg clock path request "chans w"]
  show ?thesis
    by (simp add: profile_def Let_def) blast
qed

theorem profile_retries_until_fresh_witness:
  "fmlookup (entries (clean cfg2 (clock0 0) (jobs w_a))) (nth_ID rand_aab 2) = None \<and>
   (\<exists>resp w'. profile cfg2 clock0 rand_aab w_a ''eng.ini'' req_eng = Some (resp, w') \<and>
           ((resp = RStatus StatusServiceUnavailable \<and>
             len (clean cfg2 (clock0 0) (jobs w_a)) \<ge> capacity cfg2 \<and>
             entries (jobs w') = entries (clean cfg2 (clock0 0) (jobs w_a)) \<and>
             runners w' = runners w_a) \<or>
            (\<exists>j\<le>2. resp = RToken \<lparr>ID = nth_ID rand_aab j\<rparr> \<and>
               fmlookup (entries (clean cfg2 (clock0 0) (jobs w_a))) (nth_ID rand_aab j) = None \<and>
               (\<forall>i<j. fmlookup (entries (clean cfg2 (clock0 0) (jobs w_a))) (nth_ID rand_aab i) \<noteq> None) \<and>
               entries (jobs w') =
                 fmupd (nth_ID rand_aab j)
                   \<lparr>pending = Some (chans w_a), language = req_Language req_eng,
                      start = clock0 (Suc j)\<rparr> (entries (clean cfg2 (clock0 0) (jobs w_a))) \<and>
               runners w' = fmupd (chans w_a)
                   \<lparr>runner_config = ''eng.ini'', runner_tokens = req_Tokens req_eng, pc = AtRun\<rparr>
                   (runners w_a))))"
proof -
  have h: "fmlookup (entries (clean cfg2 (clock0 0) (jobs w_a))) (nth_ID rand_aab 2) = None"
    by code_simp
  from h profile_retries_until_fresh [where cfg = cfg2 and clock = clock0 and w = w_a
      and rand = rand_aab and n = 2 and path = "''eng.ini''" and request = req_eng]
  show ?thesis
    by blast
qed

section \<open>The claim about the job runner\<close>

text \<open>
  C8, as the code has it. At every point of every run of \<^verbatim>\<open>runProfiler\<close> the events on
  the channel are none, or the one send of the profiler's result \<open>r\<close>, or that send
  followed by the close: the runner never sends twice and never closes before its send.
  The run returns, having sent exactly that one value and then closed the channel, exactly
  when the profiler returns and some goroutine is ready to receive afterwards; otherwise
  \<^verbatim>\<open>runProfiler\<close> never returns.
\<close>

theorem runProfiler_single_send:
  "snd (runProfiler_upto r sched n) \<in> {[], [Send r], [Send r, Close]} \<and>
   runProfiler r sched =
     (if \<exists>i j. i < j \<and> run_finished (sched i) \<and> receiver (sched j)
      then Some [Send r, Close] else None)"
  using snd_runProfiler_upto runProfiler_eq by blast

text \<open>
  C8, as the claim has it (every run sends exactly one value), fails on the run in which
  the profiler returns and nobody ever receives: a job that is never polled, or that the
  sweep has removed before a poll. The runner waits at its send for ever; nothing is sent
  and the channel is never closed.
\<close>

theorem runProfiler_never_received:
  "runProfiler r_ok never_received = None \<and>
   runProfiler_upto r_ok never_received 3 = (AtSend r_ok, [])"
proof -
  have "runProfiler r_ok never_received = None"
    by (simp add: runProfiler_eq never_received_def)
  moreover have "runProfiler_upto r_ok never_received 3 = (AtSend r_ok, [])"
    by (simp add: never_received_def numeral_3_eq_3)
  ultimately show ?thesis ..
qed

end
